theory Spec2Isabelle
  imports Main
begin

section \<open>The Task record of api/v1alpha1/task.go\<close>

text \<open>
  The string-like types of the package. \<open>TaskConditionType\<close> is declared in task.go as a
  Go \<open>string\<close>, with the two well-known values below.
\<close>

type_synonym TaskConditionType = string

definition TaskCompleted :: TaskConditionType where
  "TaskCompleted = ''Completed''"

definition TaskFailed :: TaskConditionType where
  "TaskFailed = ''Failed''"

text \<open>
  Modelled from the spec: \<open>ConditionStatus\<close>, \<open>PowerAction\<close> and \<open>BootDevice\<close> are
  declared in other files of the package. The spec describes \<open>ConditionStatus\<close> as an
  equality-comparable value with the well-known values \<open>True\<close> and \<open>False\<close>, and the
  persisted form of all three as strings. The only thing task.go needs of
  \<open>ConditionStatus\<close> is equality and its zero value (the empty string).
\<close>

type_synonym ConditionStatus = string
type_synonym PowerAction = string
type_synonym BootDevice = string

definition ConditionTrue :: ConditionStatus where
  "ConditionTrue = ''True''"

definition ConditionFalse :: ConditionStatus where
  "ConditionFalse = ''False''"

record OneTimeBootDeviceAction =
  Devices :: "BootDevice list"
  EFIBoot :: bool

text \<open>The two pointer fields of \<open>Action\<close> are optional values (\<open>nil\<close> is \<open>None\<close>).\<close>

record Action =
  PowerAction :: "PowerAction option"
  OneTimeBootDeviceAction :: "OneTimeBootDeviceAction option"

text \<open>
  \<open>Connection\<close> (declared in another file of the package) and the types of the
  Kubernetes library (\<open>metav1.Time\<close>, \<open>metav1.TypeMeta\<close>, \<open>metav1.ObjectMeta\<close>) are
  opaque to task.go: they are type parameters.
\<close>

record 'conn TaskSpec =
  Task :: Action
  Connection :: 'conn

record TaskCondition =
  Type :: TaskConditionType
  Status :: ConditionStatus
  Message :: string

record 'time TaskStatus =
  Conditions :: "TaskCondition list"
  StartTime :: "'time option"
  CompletionTime :: "'time option"

record ('tmeta, 'ometa, 'conn, 'time) Task =
  TypeMeta :: 'tmeta
  ObjectMeta :: 'ometa
  Spec :: "'conn TaskSpec"
  Status :: "'time TaskStatus"

section \<open>Runtime panics and pointers into the condition slice\<close>

text \<open>
  The statements of \<open>SetCondition\<close> can raise two runtime panics, and both are values
  of the model: indexing a Go slice out of range, and calling a func value that is \<open>nil\<close>.
\<close>

datatype error = IndexOutOfRange | NilDereference

text \<open>
  \<open>TaskSetConditionOption\<close> is \<open>func(*TaskCondition)\<close>: a function that may rewrite
  any field of the condition it is pointed at. It is modelled by the function from the
  condition before the call to the condition after it. The model covers what an option
  does to that condition; a \<open>nil\<close> receiver, and an option that panics, does not return
  or writes elsewhere, are outside it. A func value that is \<open>nil\<close> is not a function:
  where the caller may pass one, a value of the option type is
  \<open>TaskSetConditionOption option\<close>, with \<open>None\<close> for \<open>nil\<close> (see \<open>SetCondition_call\<close>).
\<close>

type_synonym TaskSetConditionOption = "TaskCondition \<Rightarrow> TaskCondition"

definition WithTaskConditionMessage :: "string \<Rightarrow> TaskSetConditionOption" where
  "WithTaskConditionMessage m = (\<lambda>c. c\<lparr>Message := m\<rparr>)"

text \<open>
  The local \<open>condition\<close> of \<open>SetCondition\<close> is a pointer to an element of
  \<open>t.Status.Conditions\<close>: \<open>nil\<close> is \<open>None\<close>, \<open>&t.Status.Conditions[i]\<close> is \<open>Some i\<close>.
  \<open>store_through\<close> is a write through such a pointer: the element at the index is
  replaced by \<open>f\<close> of it, and an index outside the slice panics.
\<close>

definition store_through ::
  "TaskCondition list \<Rightarrow> nat \<Rightarrow> (TaskCondition \<Rightarrow> TaskCondition) \<Rightarrow> error + TaskCondition list" where
  "store_through cs i f = (if i < length cs then Inr (cs[i := f (cs ! i)]) else Inl IndexOutOfRange)"

section \<open>SetCondition\<close>

text \<open>
  The first loop of \<open>SetCondition\<close>: \<open>for i, c := range t.Status.Conditions\<close>, leaving
  at the first \<open>c\<close> with \<open>c.Type == cType\<close>. \<open>i\<close> is the index of the head of the part
  of the slice still to visit.
\<close>

fun find_condition :: "nat \<Rightarrow> TaskCondition list \<Rightarrow> TaskConditionType \<Rightarrow> nat option" where
  "find_condition i [] cType = None"
| "find_condition i (c # cs) cType =
     (if Type c = cType then Some i else find_condition (Suc i) cs cType)"

text \<open>The last loop: \<open>for _, opt := range opts { opt(condition) }\<close>.\<close>

fun apply_opts ::
  "TaskSetConditionOption list \<Rightarrow> nat \<Rightarrow> TaskCondition list \<Rightarrow> error + TaskCondition list" where
  "apply_opts [] p cs = Inr cs"
| "apply_opts (opt # opts) p cs =
     (case store_through cs p opt of
        Inl e \<Rightarrow> Inl e
      | Inr cs' \<Rightarrow> apply_opts opts p cs')"

text \<open>
  The entry that \<open>append\<close> adds, \<open>TaskCondition{Type: cType}\<close>: the fields it does
  not name have the zero value of a string.
\<close>

definition new_entry :: "TaskConditionType \<Rightarrow> TaskCondition" where
  "new_entry cType = \<lparr>Type = cType, Status = [], Message = []\<rparr>"

text \<open>
  \<open>SetCondition\<close> has a pointer receiver and no result: the model returns the Task
  after the call, or the panic.
\<close>

definition SetCondition ::
  "('tmeta, 'ometa, 'conn, 'time) Task \<Rightarrow> TaskConditionType \<Rightarrow> ConditionStatus \<Rightarrow>
   TaskSetConditionOption list \<Rightarrow> error + ('tmeta, 'ometa, 'conn, 'time) Task" where
  "SetCondition t cType status opts =
     (let cs = Conditions (Status t);
          (cs1, condition) =
            (case find_condition 0 cs cType of
               Some i \<Rightarrow> (cs, i)
             | None \<Rightarrow>
                 (let appended = cs @ [new_entry cType]
                  in (appended, length appended - 1)))
      in case store_through cs1 condition (\<lambda>c. c\<lparr>TaskCondition.Status := status\<rparr>) of
           Inl e \<Rightarrow> Inl e
         | Inr cs2 \<Rightarrow>
             (case apply_opts opts condition cs2 of
                Inl e \<Rightarrow> Inl e
              | Inr cs3 \<Rightarrow> Inr (t\<lparr>Status := (Status t)\<lparr>Conditions := cs3\<rparr>\<rparr>)))"

text \<open>
  The same call when the variadic argument may hold \<open>nil\<close> func values. The last loop
  calls each value in order, and \<open>opt(condition)\<close> on a \<open>nil\<close> value panics; the options
  before it have been applied by then, the ones after it are not reached.
\<close>

fun call_opts ::
  "TaskSetConditionOption option list \<Rightarrow> nat \<Rightarrow> TaskCondition list \<Rightarrow> error + TaskCondition list" where
  "call_opts [] p cs = Inr cs"
| "call_opts (None # opts) p cs = Inl NilDereference"
| "call_opts (Some opt # opts) p cs =
     (case store_through cs p opt of
        Inl e \<Rightarrow> Inl e
      | Inr cs' \<Rightarrow> call_opts opts p cs')"

definition SetCondition_call ::
  "('tmeta, 'ometa, 'conn, 'time) Task \<Rightarrow> TaskConditionType \<Rightarrow> ConditionStatus \<Rightarrow>
   TaskSetConditionOption option list \<Rightarrow> error + ('tmeta, 'ometa, 'conn, 'time) Task" where
  "SetCondition_call t cType status opts =
     (let cs = Conditions (Status t);
          (cs1, condition) =
            (case find_condition 0 cs cType of
               Some i \<Rightarrow> (cs, i)
             | None \<Rightarrow>
                 (let appended = cs @ [new_entry cType]
                  in (appended, length appended - 1)))
      in case store_through cs1 condition (\<lambda>c. c\<lparr>TaskCondition.Status := status\<rparr>) of
           Inl e \<Rightarrow> Inl e
         | Inr cs2 \<Rightarrow>
             (case call_opts opts condition cs2 of
                Inl e \<Rightarrow> Inl e
              | Inr cs3 \<Rightarrow> Inr (t\<lparr>Status := (Status t)\<lparr>Conditions := cs3\<rparr>\<rparr>)))"

section \<open>HasCondition\<close>

text \<open>
  The loop of \<open>HasCondition\<close>: \<open>for _, c := range t.Status.Conditions\<close>, returning at the
  first \<open>c\<close> with \<open>c.Type == cType\<close>, and \<open>false\<close> after the loop.
\<close>

fun has_condition :: "TaskCondition list \<Rightarrow> TaskConditionType \<Rightarrow> ConditionStatus \<Rightarrow> bool" where
  "has_condition [] cType cStatus = False"
| "has_condition (c # cs) cType cStatus =
     (if Type c = cType then TaskCondition.Status c = cStatus else has_condition cs cType cStatus)"

text \<open>
  \<open>HasCondition\<close> has a pointer receiver too: the model returns its result together with
  the Task after the call. The body assigns to nothing reachable from \<open>t\<close>.
\<close>

definition HasCondition ::
  "('tmeta, 'ometa, 'conn, 'time) Task \<Rightarrow> TaskConditionType \<Rightarrow> ConditionStatus \<Rightarrow>
   bool \<times> ('tmeta, 'ometa, 'conn, 'time) Task" where
  "HasCondition t cType cStatus = (has_condition (Conditions (Status t)) cType cStatus, t)"

section \<open>Notation for the statements\<close>

text \<open>The condition sequence of a Task, and a Task with its condition sequence replaced.\<close>

abbreviation conds :: "('tmeta, 'ometa, 'conn, 'time) Task \<Rightarrow> TaskCondition list" where
  "conds t \<equiv> Conditions (Status t)"

abbreviation with_conds ::
  "('tmeta, 'ometa, 'conn, 'time) Task \<Rightarrow> TaskCondition list \<Rightarrow> ('tmeta, 'ometa, 'conn, 'time) Task" where
  "with_conds t cs \<equiv> t\<lparr>Status := (Status t)\<lparr>Conditions := cs\<rparr>\<rparr>"

text \<open>
  What the statements after the search do to the entry \<open>condition\<close> points at:
  \<open>condition.Status = status\<close>, then every option in order.
\<close>

definition updated_entry ::
  "ConditionStatus \<Rightarrow> TaskSetConditionOption list \<Rightarrow> TaskCondition \<Rightarrow> TaskCondition" where
  "updated_entry status opts c = foldl (\<lambda>c opt. opt c) (c\<lparr>TaskCondition.Status := status\<rparr>) opts"

text \<open>
  The entry \<open>condition\<close> points at when the search is over: the first entry of the type,
  or the appended one.
\<close>

definition pointed_entry :: "TaskCondition list \<Rightarrow> TaskConditionType \<Rightarrow> TaskCondition" where
  "pointed_entry cs cType =
     (case find (\<lambda>c. Type c = cType) cs of Some c \<Rightarrow> c | None \<Rightarrow> new_entry cType)"

text \<open>
  Options that leave the Type, or the Status, of every entry as it is.
  \<open>WithTaskConditionMessage\<close> is one of them.
\<close>

definition keeps_type :: "TaskSetConditionOption \<Rightarrow> bool" where
  "keeps_type opt = (\<forall>c. Type (opt c) = Type c)"

definition keeps_status :: "TaskSetConditionOption \<Rightarrow> bool" where
  "keeps_status opt = (\<forall>c. TaskCondition.Status (opt c) = TaskCondition.Status c)"

text \<open>
  Example data: a Task with a power action, no time stamps and the given conditions, and
  two options a caller can write beside \<open>WithTaskConditionMessage\<close>.
\<close>

definition example_task :: "TaskCondition list \<Rightarrow> (unit, unit, unit, nat) Task" where
  "example_task cs =
     \<lparr>TypeMeta = (), ObjectMeta = (),
      Spec = \<lparr>Task = \<lparr>PowerAction = Some ''on'', OneTimeBootDeviceAction = None\<rparr>, Connection = ()\<rparr>,
      Status = \<lparr>Conditions = cs, StartTime = None, CompletionTime = None\<rparr>\<rparr>"

definition retype_option :: "TaskConditionType \<Rightarrow> TaskSetConditionOption" where
  "retype_option ty = (\<lambda>c. c\<lparr>Type := ty\<rparr>)"

definition restatus_option :: "ConditionStatus \<Rightarrow> TaskSetConditionOption" where
  "restatus_option st = (\<lambda>c. c\<lparr>TaskCondition.Status := st\<rparr>)"

section \<open>The search loop and the writes through the pointer\<close>

lemma find_condition_None: "(find_condition k cs T = None) = (T \<notin> Type ` set cs)"
  by (induction cs arbitrary: k) auto

lemma find_condition_Some_offset:
  "find_condition k cs T = Some i \<Longrightarrow>
     k \<le> i \<and> i - k < length cs \<and> Type (cs ! (i - k)) = T \<and> (\<forall>j < i - k. Type (cs ! j) \<noteq> T)"
proof (induction cs arbitrary: k)
  case Nil
  then show ?case by simp
next
  case (Cons c cs)
  show ?case
  proof (cases "Type c = T")
    case True
    with Cons.prems show ?thesis by simp
  next
    case False
    with Cons.prems have rest: "find_condition (Suc k) cs T = Some i" by simp
    from Cons.IH [OF rest]
    have k: "Suc k \<le> i" and len: "i - Suc k < length cs"
      and ty: "Type (cs ! (i - Suc k)) = T"
      and before: "\<forall>j < i - Suc k. Type (cs ! j) \<noteq> T"
      by simp_all
    from k have split: "i - k = Suc (i - Suc k)" by arith
    have "\<forall>j < i - k. Type ((c # cs) ! j) \<noteq> T"
    proof (intro allI impI)
      fix j assume "j < i - k"
      with split before False show "Type ((c # cs) ! j) \<noteq> T"
        by (cases j) auto
    qed
    with k len ty split show ?thesis by simp
  qed
qed

text \<open>The pointer found by the loop is in range, and it is the first entry of the type.\<close>

lemma find_condition_first:
  "find_condition 0 cs T = Some i \<Longrightarrow>
     i < length cs \<and> Type (cs ! i) = T \<and> (\<forall>j < i. Type (cs ! j) \<noteq> T)"
  using find_condition_Some_offset [of 0 cs T i] by simp

lemma first_index_found:
  assumes "i < length cs" and "Type (cs ! i) = T" and "\<forall>j < i. Type (cs ! j) \<noteq> T"
  shows "find_condition 0 cs T = Some i"
proof -
  from assms(1,2) have "T \<in> Type ` set cs" by (metis imageI nth_mem)
  then obtain i' where found: "find_condition 0 cs T = Some i'"
    using find_condition_None [of 0 cs T] by (cases "find_condition 0 cs T") auto
  from find_condition_first [OF found]
  have "i' < length cs" and "Type (cs ! i') = T" and "\<forall>j < i'. Type (cs ! j) \<noteq> T"
    by simp_all
  with assms have "\<not> i' < i" and "\<not> i < i'" by auto
  then have "i' = i" by arith
  with found show ?thesis by simp
qed

lemma apply_opts_in_range:
  "p < length cs \<Longrightarrow> apply_opts opts p cs = Inr (cs[p := foldl (\<lambda>c opt. opt c) (cs ! p) opts])"
  by (induction opts arbitrary: cs) (simp_all add: store_through_def)

text \<open>The two paths of \<open>SetCondition\<close>: update in place, or append.\<close>

lemma SetCondition_found:
  assumes "find_condition 0 (conds t) T = Some i"
  shows "SetCondition t T S opts =
           Inr (with_conds t ((conds t)[i := updated_entry S opts (conds t ! i)]))"
proof -
  from find_condition_first [OF assms] have "i < length (conds t)" by simp
  with assms show ?thesis
    by (simp add: SetCondition_def store_through_def apply_opts_in_range updated_entry_def Let_def)
qed

lemma SetCondition_fresh:
  assumes "find_condition 0 (conds t) T = None"
  shows "SetCondition t T S opts =
           Inr (with_conds t (conds t @ [updated_entry S opts (new_entry T)]))"
  using assms
  by (simp add: SetCondition_def store_through_def apply_opts_in_range updated_entry_def
      new_entry_def Let_def nth_append)

lemma SetCondition_cases:
  obtains (found) i where "find_condition 0 (conds t) T = Some i"
      "i < length (conds t)" "Type (conds t ! i) = T" "\<forall>j < i. Type (conds t ! j) \<noteq> T"
      "SetCondition t T S opts =
         Inr (with_conds t ((conds t)[i := updated_entry S opts (conds t ! i)]))"
  | (fresh) "find_condition 0 (conds t) T = None" "T \<notin> Type ` set (conds t)"
      "SetCondition t T S opts =
         Inr (with_conds t (conds t @ [updated_entry S opts (new_entry T)]))"
proof (cases "find_condition 0 (conds t) T")
  case None
  then show ?thesis
    using fresh SetCondition_fresh [OF None] find_condition_None [of 0 "conds t" T] by simp
next
  case (Some i)
  then show ?thesis
    using found SetCondition_found [OF Some] find_condition_first [OF Some] by simp
qed

section \<open>The first entry of a type\<close>

lemma find_first_index:
  assumes "i < length cs" and "P (cs ! i)" and "\<forall>j < i. \<not> P (cs ! j)"
  shows "find P cs = Some (cs ! i)"
  using assms by (auto simp: find_Some_iff)

lemma find_update_first:
  assumes "i < length cs" and "P e" and "\<forall>j < i. \<not> P (cs ! j)"
  shows "find P (cs[i := e]) = Some e"
proof -
  have "i < length (cs[i := e])" using assms(1) by simp
  moreover have "P ((cs[i := e]) ! i)" using assms(1,2) by simp
  moreover have "\<forall>j < i. \<not> P ((cs[i := e]) ! j)" using assms(1,3) by simp
  ultimately have "find P (cs[i := e]) = Some ((cs[i := e]) ! i)"
    by (rule find_first_index)
  with assms(1) show ?thesis by simp
qed

lemma find_append_fresh:
  assumes "\<forall>c \<in> set cs. \<not> P c" and "P e"
  shows "find P (cs @ [e]) = Some e"
  using assms by (induction cs) simp_all

lemma updated_entry_no_opts: "updated_entry S [] c = c\<lparr>TaskCondition.Status := S\<rparr>"
  by (simp add: updated_entry_def)

lemma updated_entry_message:
  "updated_entry S [WithTaskConditionMessage m] c = c\<lparr>TaskCondition.Status := S, Message := m\<rparr>"
  by (simp add: updated_entry_def WithTaskConditionMessage_def)

lemma keeps_type_message: "keeps_type (WithTaskConditionMessage m)"
  by (simp add: keeps_type_def WithTaskConditionMessage_def)

lemma keeps_status_message: "keeps_status (WithTaskConditionMessage m)"
  by (simp add: keeps_status_def WithTaskConditionMessage_def)

lemma foldl_keeps_type:
  "\<forall>opt \<in> set opts. keeps_type opt \<Longrightarrow> Type (foldl (\<lambda>c opt. opt c) c opts) = Type c"
  by (induction opts arbitrary: c) (simp_all add: keeps_type_def)

lemma foldl_keeps_status:
  "\<forall>opt \<in> set opts. keeps_status opt \<Longrightarrow>
     TaskCondition.Status (foldl (\<lambda>c opt. opt c) c opts) = TaskCondition.Status c"
  by (induction opts arbitrary: c) (simp_all add: keeps_status_def)

lemma updated_entry_type:
  "\<forall>opt \<in> set opts. keeps_type opt \<Longrightarrow> Type (updated_entry S opts c) = Type c"
  by (simp add: updated_entry_def foldl_keeps_type)

lemma updated_entry_status:
  "\<forall>opt \<in> set opts. keeps_status opt \<Longrightarrow> TaskCondition.Status (updated_entry S opts c) = S"
  by (simp add: updated_entry_def foldl_keeps_status)

text \<open>The first entry of the type after the call, when the options leave the Type alone.\<close>

lemma SetCondition_first_entry:
  assumes keeps: "\<forall>opt \<in> set opts. keeps_type opt"
  shows "\<exists>t'. SetCondition t T S opts = Inr t' \<and>
           find (\<lambda>c. Type c = T) (conds t') = Some (updated_entry S opts (pointed_entry (conds t) T))"
proof (rule SetCondition_cases [where t = t and T = T and S = S and opts = opts])
  fix i
  assume i: "i < length (conds t)" "Type (conds t ! i) = T" "\<forall>j < i. Type (conds t ! j) \<noteq> T"
    and res: "SetCondition t T S opts =
      Inr (with_conds t ((conds t)[i := updated_entry S opts (conds t ! i)]))"
  from i have old: "find (\<lambda>c. Type c = T) (conds t) = Some (conds t ! i)"
    by (intro find_first_index) simp_all
  have "Type (updated_entry S opts (conds t ! i)) = T"
    using keeps i(2) by (simp add: updated_entry_type)
  with i have "find (\<lambda>c. Type c = T) ((conds t)[i := updated_entry S opts (conds t ! i)])
      = Some (updated_entry S opts (conds t ! i))"
    by (intro find_update_first) simp_all
  with res old show ?thesis by (simp add: pointed_entry_def)
next
  assume absent: "T \<notin> Type ` set (conds t)"
    and res: "SetCondition t T S opts =
      Inr (with_conds t (conds t @ [updated_entry S opts (new_entry T)]))"
  from absent have old: "find (\<lambda>c. Type c = T) (conds t) = None"
    by (auto simp: find_None_iff)
  have "Type (updated_entry S opts (new_entry T)) = T"
    using keeps by (simp add: updated_entry_type new_entry_def)
  with absent have "find (\<lambda>c. Type c = T) (conds t @ [updated_entry S opts (new_entry T)])
      = Some (updated_entry S opts (new_entry T))"
    by (intro find_append_fresh) auto
  with res old show ?thesis by (simp add: pointed_entry_def)
qed

section \<open>HasCondition: the result and the frame\<close>

lemma has_condition_find:
  "has_condition cs T S =
     (case find (\<lambda>c. Type c = T) cs of None \<Rightarrow> False | Some c \<Rightarrow> TaskCondition.Status c = S)"
  by (induction cs) simp_all

lemma HasCondition_result:
  "fst (HasCondition t T S) =
     (case find (\<lambda>c. Type c = T) (conds t) of None \<Rightarrow> False | Some c \<Rightarrow> TaskCondition.Status c = S)"
  by (simp add: HasCondition_def has_condition_find)

text \<open>
  Claim C3. \<open>HasCondition(T, S)\<close> is true exactly when the first entry whose Type is
  \<open>T\<close> has Status \<open>S\<close>. It is false when no entry has Type \<open>T\<close>, and false when the
  first entry of Type \<open>T\<close> has a Status other than \<open>S\<close>.
\<close>

theorem HasCondition_first_entry:
  "fst (HasCondition t T S) =
     (case find (\<lambda>c. Type c = T) (conds t) of
        None \<Rightarrow> False
      | Some c \<Rightarrow> TaskCondition.Status c = S)
   \<and> (T \<notin> Type ` set (conds t) \<longrightarrow> \<not> fst (HasCondition t T S))
   \<and> (\<forall>c. find (\<lambda>c. Type c = T) (conds t) = Some c \<and> TaskCondition.Status c \<noteq> S
          \<longrightarrow> \<not> fst (HasCondition t T S))"
proof -
  have absent: "T \<notin> Type ` set (conds t) \<Longrightarrow> find (\<lambda>c. Type c = T) (conds t) = None"
    by (auto simp: find_None_iff)
  show ?thesis
    using absent by (auto simp: HasCondition_result)
qed

theorem HasCondition_first_entry_witness:
  "TaskFailed \<notin> Type ` set (conds (example_task [new_entry TaskCompleted]))
   \<and> \<not> fst (HasCondition (example_task [new_entry TaskCompleted]) TaskFailed ConditionTrue)
   \<and> find (\<lambda>c. Type c = TaskCompleted) (conds (example_task [new_entry TaskCompleted]))
       = Some (new_entry TaskCompleted)
   \<and> TaskCondition.Status (new_entry TaskCompleted) \<noteq> ConditionTrue
   \<and> \<not> fst (HasCondition (example_task [new_entry TaskCompleted]) TaskCompleted ConditionTrue)
   \<and> fst (HasCondition
        (example_task [\<lparr>Type = TaskCompleted, Status = ConditionTrue, Message = []\<rparr>])
        TaskCompleted ConditionTrue)"
  using HasCondition_first_entry [of "example_task [new_entry TaskCompleted]" TaskFailed ConditionTrue]
    HasCondition_first_entry [of "example_task [new_entry TaskCompleted]" TaskCompleted ConditionTrue]
    HasCondition_first_entry
      [of "example_task [\<lparr>Type = TaskCompleted, Status = ConditionTrue, Message = []\<rparr>]"
        TaskCompleted ConditionTrue]
  by (simp add: example_task_def new_entry_def TaskFailed_def TaskCompleted_def ConditionTrue_def)

text \<open>
  Claim C10. \<open>HasCondition\<close> is a query: the Task after the call is the Task before it,
  in every field.
\<close>

theorem HasCondition_pure: "snd (HasCondition t T S) = t"
  by (simp add: HasCondition_def)

section \<open>Totality\<close>

text \<open>With no \<open>nil\<close> among the options, \<open>SetCondition_call\<close> is \<open>SetCondition\<close>.\<close>

lemma call_opts_Some: "call_opts (map Some opts) p cs = apply_opts opts p cs"
  by (induction opts arbitrary: cs) (simp_all split: sum.splits)

lemma SetCondition_call_Some: "SetCondition_call t T S (map Some opts) = SetCondition t T S opts"
  by (simp only: SetCondition_call_def SetCondition_def call_opts_Some)

lemma no_nil_map_Some: "None \<notin> set vopts \<Longrightarrow> map Some (map the vopts) = vopts"
  by (induction vopts) auto

text \<open>The last loop stops at the first \<open>nil\<close>, whatever the options before it did.\<close>

lemma call_opts_nil:
  "None \<in> set vopts \<Longrightarrow> p < length cs \<Longrightarrow> call_opts vopts p cs = Inl NilDereference"
proof (induction vopts arbitrary: cs)
  case Nil
  then show ?case by simp
next
  case (Cons v vopts)
  show ?case
  proof (cases v)
    case None
    then show ?thesis by simp
  next
    case (Some opt)
    with Cons.prems have "None \<in> set vopts" by simp
    moreover from Cons.prems have "p < length (cs[p := opt (cs ! p)])" by simp
    ultimately have "call_opts vopts p (cs[p := opt (cs ! p)]) = Inl NilDereference"
      by (rule Cons.IH)
    with Some Cons.prems(2) show ?thesis by (simp add: store_through_def)
  qed
qed

lemma SetCondition_call_nil:
  assumes "None \<in> set vopts"
  shows "SetCondition_call t T S vopts = Inl NilDereference"
proof (cases "find_condition 0 (conds t) T")
  case None
  have "length (conds t) < length ((conds t @ [new_entry T])
      [length (conds t) := (new_entry T)\<lparr>TaskCondition.Status := S\<rparr>])"
    by simp
  from call_opts_nil [OF assms this] None show ?thesis
    by (simp add: SetCondition_call_def store_through_def Let_def)
next
  case (Some i)
  from find_condition_first [OF Some] have i: "i < length (conds t)" by simp
  then have "i < length ((conds t)[i := (conds t ! i)\<lparr>TaskCondition.Status := S\<rparr>])"
    by simp
  from call_opts_nil [OF assms this] Some i show ?thesis
    by (simp add: SetCondition_call_def store_through_def Let_def)
qed

text \<open>
  Claim C7, as amended. \<open>SetCondition\<close> returns a Task for every Task, type, status and
  option list that holds no \<open>nil\<close> option (each option being a function that returns):
  both pointers it writes through are in range. When the list holds a \<open>nil\<close> option the
  call panics, at \<open>opt(condition)\<close>. \<open>HasCondition\<close> returns a result for every Task, type
  and status: it has no statement that can fail. Both loops are structural recursions
  over a finite slice, so both calls terminate.
\<close>

theorem SetCondition_total_without_nil:
  "(None \<notin> set vopts \<longrightarrow> (\<exists>t'. SetCondition_call t T S vopts = Inr t'))
   \<and> (None \<in> set vopts \<longrightarrow> SetCondition_call t T S vopts = Inl NilDereference)
   \<and> (\<exists>b. HasCondition t T' S' = (b, t))"
proof (intro conjI impI)
  assume "None \<notin> set vopts"
  then have "map Some (map the vopts) = vopts" by (rule no_nil_map_Some)
  with SetCondition_call_Some [of t T S "map the vopts"]
  have "SetCondition_call t T S vopts = SetCondition t T S (map the vopts)"
    by (simp only:)
  moreover have "\<exists>t'. SetCondition t T S (map the vopts) = Inr t'"
    by (rule SetCondition_cases [where t = t and T = T and S = S and opts = "map the vopts"])
      simp_all
  ultimately show "\<exists>t'. SetCondition_call t T S vopts = Inr t'" by simp
next
  assume "None \<in> set vopts"
  then show "SetCondition_call t T S vopts = Inl NilDereference"
    by (rule SetCondition_call_nil)
next
  show "\<exists>b. HasCondition t T' S' = (b, t)"
    by (simp add: HasCondition_def)
qed

theorem SetCondition_total_without_nil_witness:
  "None \<notin> set [Some (WithTaskConditionMessage ''done'')]
   \<and> (\<exists>t'. SetCondition_call
          (example_task [\<lparr>Type = TaskCompleted, Status = ConditionFalse, Message = []\<rparr>])
          TaskCompleted ConditionTrue [Some (WithTaskConditionMessage ''done'')] = Inr t')
   \<and> None \<in> set [Some (WithTaskConditionMessage ''done''), None]
   \<and> SetCondition_call
        (example_task [\<lparr>Type = TaskCompleted, Status = ConditionFalse, Message = []\<rparr>])
        TaskCompleted ConditionTrue [Some (WithTaskConditionMessage ''done''), None]
      = Inl NilDereference"
proof -
  let ?t = "example_task [\<lparr>Type = TaskCompleted, Status = ConditionFalse, Message = []\<rparr>]"
  have ok: "None \<notin> set [Some (WithTaskConditionMessage ''done'')]" by simp
  have nil: "None \<in> set [Some (WithTaskConditionMessage ''done''), None]" by simp
  from SetCondition_total_without_nil
    [of "[Some (WithTaskConditionMessage ''done'')]" ?t TaskCompleted ConditionTrue] ok
  have "\<exists>t'. SetCondition_call ?t TaskCompleted ConditionTrue
      [Some (WithTaskConditionMessage ''done'')] = Inr t'"
    by blast
  moreover from SetCondition_total_without_nil
    [of "[Some (WithTaskConditionMessage ''done''), None]" ?t TaskCompleted ConditionTrue] nil
  have "SetCondition_call ?t TaskCompleted ConditionTrue
      [Some (WithTaskConditionMessage ''done''), None] = Inl NilDereference"
    by blast
  ultimately show ?thesis using ok nil by blast
qed

text \<open>
  The claim as stated, for every option list, fails: on a Task with no conditions,
  \<open>SetCondition(Failed, True, nil)\<close> appends the entry, writes its Status and panics when
  it calls the \<open>nil\<close> option.
\<close>

theorem SetCondition_total_counterexample:
  "SetCondition_call (example_task []) TaskFailed ConditionTrue [None] = Inl NilDereference"
  by (simp add: SetCondition_call_def store_through_def example_task_def)

section \<open>SetCondition: where the entry goes and what it holds\<close>

text \<open>
  Claim C5. When an entry of the type exists, \<open>SetCondition\<close> rewrites the first one at
  its index \<open>i\<close> and the sequence keeps its length and every other entry; when none
  exists, the new entry is appended at the end. On a Task whose conditions are
  \<open>[{Completed, False}]\<close> (with any message \<open>m\<close>), \<open>SetCondition(Completed, True)\<close>
  gives \<open>[{Completed, True}]\<close>: one entry, in the same position.
\<close>

theorem SetCondition_in_place_or_append:
  "(i < length (conds t) \<and> Type (conds t ! i) = T \<and> (\<forall>j < i. Type (conds t ! j) \<noteq> T)
        \<longrightarrow> SetCondition t T S opts =
              Inr (with_conds t ((conds t)[i := updated_entry S opts (conds t ! i)])))
   \<and> (T \<notin> Type ` set (conds t)
        \<longrightarrow> SetCondition t T S opts =
              Inr (with_conds t (conds t @ [updated_entry S opts (new_entry T)])))
   \<and> SetCondition (with_conds t [\<lparr>Type = TaskCompleted, Status = ConditionFalse, Message = m\<rparr>])
         TaskCompleted ConditionTrue [] =
       Inr (with_conds t [\<lparr>Type = TaskCompleted, Status = ConditionTrue, Message = m\<rparr>])"
proof (intro conjI impI)
  assume "i < length (conds t) \<and> Type (conds t ! i) = T \<and> (\<forall>j < i. Type (conds t ! j) \<noteq> T)"
  then have "find_condition 0 (conds t) T = Some i"
    by (simp add: first_index_found)
  then show "SetCondition t T S opts =
      Inr (with_conds t ((conds t)[i := updated_entry S opts (conds t ! i)]))"
    by (rule SetCondition_found)
next
  assume "T \<notin> Type ` set (conds t)"
  then have "find_condition 0 (conds t) T = None"
    by (simp add: find_condition_None)
  then show "SetCondition t T S opts =
      Inr (with_conds t (conds t @ [updated_entry S opts (new_entry T)]))"
    by (rule SetCondition_fresh)
next
  let ?t = "with_conds t [\<lparr>Type = TaskCompleted, Status = ConditionFalse, Message = m\<rparr>]"
  have "find_condition 0 (conds ?t) TaskCompleted = Some 0" by simp
  from SetCondition_found [OF this, of ConditionTrue "[]"]
  show "SetCondition ?t TaskCompleted ConditionTrue [] =
      Inr (with_conds t [\<lparr>Type = TaskCompleted, Status = ConditionTrue, Message = m\<rparr>])"
    by (simp add: updated_entry_no_opts)
qed

theorem SetCondition_in_place_or_append_witness:
  "(1::nat) < length (conds (example_task [new_entry TaskFailed, new_entry TaskCompleted]))
   \<and> Type (conds (example_task [new_entry TaskFailed, new_entry TaskCompleted]) ! 1) = TaskCompleted
   \<and> Type (conds (example_task [new_entry TaskFailed, new_entry TaskCompleted]) ! 0) \<noteq> TaskCompleted
   \<and> SetCondition (example_task [new_entry TaskFailed, new_entry TaskCompleted])
        TaskCompleted ConditionTrue [WithTaskConditionMessage ''done''] =
      Inr (example_task [new_entry TaskFailed,
             \<lparr>Type = TaskCompleted, Status = ConditionTrue, Message = ''done''\<rparr>])
   \<and> TaskCompleted \<notin> Type ` set (conds (example_task [new_entry TaskFailed]))
   \<and> SetCondition (example_task [new_entry TaskFailed])
        TaskCompleted ConditionTrue [WithTaskConditionMessage ''done''] =
      Inr (example_task [new_entry TaskFailed,
             \<lparr>Type = TaskCompleted, Status = ConditionTrue, Message = ''done''\<rparr>])"
  using SetCondition_in_place_or_append
      [of 1 "example_task [new_entry TaskFailed, new_entry TaskCompleted]" TaskCompleted
        ConditionTrue "[WithTaskConditionMessage ''done'']"]
    SetCondition_in_place_or_append
      [of 0 "example_task [new_entry TaskFailed]" TaskCompleted
        ConditionTrue "[WithTaskConditionMessage ''done'']"]
  by (simp add: example_task_def new_entry_def TaskFailed_def TaskCompleted_def
      updated_entry_message)

text \<open>
  Claim C6. After \<open>SetCondition(T, S, WithTaskConditionMessage(m))\<close> the first entry of
  type \<open>T\<close> has status \<open>S\<close> and message \<open>m\<close>. On a Task with no conditions,
  \<open>SetCondition(Failed, True, WithTaskConditionMessage("boot device set failed"))\<close> gives
  the single entry \<open>{Failed, True, "boot device set failed"}\<close>, on which
  \<open>HasCondition(Failed, True)\<close> is true and \<open>HasCondition(Completed, True)\<close> is false.
\<close>

theorem SetCondition_with_message:
  "(\<exists>t' c. SetCondition t T S [WithTaskConditionMessage m] = Inr t'
        \<and> find (\<lambda>c. Type c = T) (conds t') = Some c
        \<and> TaskCondition.Status c = S \<and> Message c = m)
   \<and> SetCondition (with_conds t []) TaskFailed ConditionTrue
         [WithTaskConditionMessage ''boot device set failed''] =
       Inr (with_conds t
              [\<lparr>Type = TaskFailed, Status = ConditionTrue, Message = ''boot device set failed''\<rparr>])
   \<and> HasCondition (with_conds t
              [\<lparr>Type = TaskFailed, Status = ConditionTrue, Message = ''boot device set failed''\<rparr>])
         TaskFailed ConditionTrue =
       (True, with_conds t
              [\<lparr>Type = TaskFailed, Status = ConditionTrue, Message = ''boot device set failed''\<rparr>])
   \<and> HasCondition (with_conds t
              [\<lparr>Type = TaskFailed, Status = ConditionTrue, Message = ''boot device set failed''\<rparr>])
         TaskCompleted ConditionTrue =
       (False, with_conds t
              [\<lparr>Type = TaskFailed, Status = ConditionTrue, Message = ''boot device set failed''\<rparr>])"
proof (intro conjI)
  have "\<forall>opt \<in> set [WithTaskConditionMessage m]. keeps_type opt"
    by (simp add: keeps_type_message)
  from SetCondition_first_entry [OF this, of t T S]
  show "\<exists>t' c. SetCondition t T S [WithTaskConditionMessage m] = Inr t'
        \<and> find (\<lambda>c. Type c = T) (conds t') = Some c
        \<and> TaskCondition.Status c = S \<and> Message c = m"
    by (auto simp: updated_entry_message)
next
  have "find_condition 0 (conds (with_conds t [])) TaskFailed = None" by simp
  from SetCondition_fresh [OF this, of ConditionTrue "[WithTaskConditionMessage ''boot device set failed'']"]
  show "SetCondition (with_conds t []) TaskFailed ConditionTrue
         [WithTaskConditionMessage ''boot device set failed''] =
       Inr (with_conds t
              [\<lparr>Type = TaskFailed, Status = ConditionTrue, Message = ''boot device set failed''\<rparr>])"
    by (simp add: updated_entry_message new_entry_def)
qed (simp_all add: HasCondition_def TaskFailed_def TaskCompleted_def)

text \<open>
  Claim C8. A later \<open>SetCondition\<close> on the same type with no option keeps the message:
  after \<open>SetCondition(T, S1, WithTaskConditionMessage(m))\<close> and then \<open>SetCondition(T, S2)\<close>
  the first entry of type \<open>T\<close> has status \<open>S2\<close> and message \<open>m\<close>.
\<close>

theorem SetCondition_retains_message:
  "\<exists>t1 t2 c. SetCondition t T S1 [WithTaskConditionMessage m] = Inr t1
      \<and> SetCondition t1 T S2 [] = Inr t2
      \<and> find (\<lambda>c. Type c = T) (conds t2) = Some c
      \<and> TaskCondition.Status c = S2 \<and> Message c = m"
proof -
  have "\<forall>opt \<in> set [WithTaskConditionMessage m]. keeps_type opt"
    by (simp add: keeps_type_message)
  from SetCondition_first_entry [OF this, of t T S1]
  obtain t1 where t1: "SetCondition t T S1 [WithTaskConditionMessage m] = Inr t1"
    and e1: "find (\<lambda>c. Type c = T) (conds t1) =
      Some (updated_entry S1 [WithTaskConditionMessage m] (pointed_entry (conds t) T))"
    by blast
  have "\<forall>opt \<in> set ([] :: TaskSetConditionOption list). keeps_type opt" by simp
  from SetCondition_first_entry [OF this, of t1 T S2]
  obtain t2 where t2: "SetCondition t1 T S2 [] = Inr t2"
    and e2: "find (\<lambda>c. Type c = T) (conds t2) = Some (updated_entry S2 [] (pointed_entry (conds t1) T))"
    by blast
  from e1 have "pointed_entry (conds t1) T =
      updated_entry S1 [WithTaskConditionMessage m] (pointed_entry (conds t) T)"
    by (simp add: pointed_entry_def)
  with e2 have "find (\<lambda>c. Type c = T) (conds t2) =
      Some ((pointed_entry (conds t) T)\<lparr>TaskCondition.Status := S2, Message := m\<rparr>)"
    by (simp add: updated_entry_message updated_entry_no_opts)
  with t1 t2 show ?thesis by simp
qed

section \<open>SetCondition: one entry per type\<close>

text \<open>The Types of the entries after the call, when the options leave the Type alone.\<close>

lemma SetCondition_types:
  assumes keeps: "\<forall>opt \<in> set opts. keeps_type opt"
  shows "\<exists>t'. SetCondition t T S opts = Inr t' \<and>
           map Type (conds t') =
             (if T \<in> Type ` set (conds t) then map Type (conds t) else map Type (conds t) @ [T])"
proof (rule SetCondition_cases [where t = t and T = T and S = S and opts = opts])
  fix i
  assume i: "i < length (conds t)" "Type (conds t ! i) = T"
    and res: "SetCondition t T S opts =
      Inr (with_conds t ((conds t)[i := updated_entry S opts (conds t ! i)]))"
  from i have present: "T \<in> Type ` set (conds t)" by (metis imageI nth_mem)
  have "Type (updated_entry S opts (conds t ! i)) = T"
    using keeps i(2) by (simp add: updated_entry_type)
  with i have "map Type ((conds t)[i := updated_entry S opts (conds t ! i)]) = map Type (conds t)"
    by (simp add: map_update list_update_same_conv)
  with res present show ?thesis by simp
next
  assume absent: "T \<notin> Type ` set (conds t)"
    and res: "SetCondition t T S opts =
      Inr (with_conds t (conds t @ [updated_entry S opts (new_entry T)]))"
  have "Type (updated_entry S opts (new_entry T)) = T"
    using keeps by (simp add: updated_entry_type new_entry_def)
  with res absent show ?thesis by simp
qed

lemma count_first_entry:
  assumes "count_list (map Type cs) T \<le> 1" and "find (\<lambda>c. Type c = T) cs = Some e"
    and "c \<in> set cs" and "Type c = T"
  shows "c = e"
  using assms
proof (induction cs)
  case Nil
  then show ?case by simp
next
  case (Cons a cs)
  show ?case
  proof (cases "Type a = T")
    case True
    with Cons.prems(1) have "count_list (map Type cs) T = 0" by simp
    then have "T \<notin> set (map Type cs)" by (simp add: count_list_0_iff)
    with Cons.prems(3,4) have "c = a" by auto
    moreover from True Cons.prems(2) have "e = a" by simp
    ultimately show ?thesis by simp
  next
    case False
    with Cons.prems have "count_list (map Type cs) T \<le> 1"
      and "find (\<lambda>c. Type c = T) cs = Some e" and "c \<in> set cs"
      by auto
    with Cons.IH Cons.prems(4) show ?thesis by simp
  qed
qed

lemma SetCondition_unique_entry:
  assumes once: "count_list (map Type (conds t)) T \<le> 1"
    and keeps: "\<forall>opt \<in> set opts. keeps_type opt \<and> keeps_status opt"
  shows "\<exists>t'. SetCondition t T S opts = Inr t'
           \<and> count_list (map Type (conds t')) T = 1
           \<and> (\<forall>c \<in> set (conds t'). Type c = T \<longrightarrow>
                 c = updated_entry S opts (pointed_entry (conds t) T) \<and> TaskCondition.Status c = S)"
proof -
  from keeps have kt: "\<forall>opt \<in> set opts. keeps_type opt"
    and ks: "\<forall>opt \<in> set opts. keeps_status opt" by simp_all
  from SetCondition_first_entry [OF kt, of t T S]
  obtain t' where res: "SetCondition t T S opts = Inr t'"
    and first: "find (\<lambda>c. Type c = T) (conds t') =
      Some (updated_entry S opts (pointed_entry (conds t) T))"
    by blast
  from SetCondition_types [OF kt, of t T S] res
  have types: "map Type (conds t') =
      (if T \<in> Type ` set (conds t) then map Type (conds t) else map Type (conds t) @ [T])"
    by simp
  have count: "count_list (map Type (conds t')) T = 1"
  proof (cases "T \<in> Type ` set (conds t)")
    case True
    then have "count_list (map Type (conds t)) T \<noteq> 0"
      by (simp add: count_list_0_iff)
    with once types True show ?thesis by simp
  next
    case False
    then have "count_list (map Type (conds t)) T = 0"
      by (simp add: count_list_0_iff)
    with types False show ?thesis by simp
  qed
  have "\<forall>c \<in> set (conds t'). Type c = T \<longrightarrow>
      c = updated_entry S opts (pointed_entry (conds t) T) \<and> TaskCondition.Status c = S"
  proof (intro ballI impI)
    fix c assume "c \<in> set (conds t')" and "Type c = T"
    with count first have "c = updated_entry S opts (pointed_entry (conds t) T)"
      by (intro count_first_entry [where cs = "conds t'" and T = T]) simp_all
    then show "c = updated_entry S opts (pointed_entry (conds t) T) \<and> TaskCondition.Status c = S"
      using ks by (simp add: updated_entry_status)
  qed
  with res count show ?thesis by simp
qed

text \<open>
  Claim C1, as amended. For a Task in which at most one entry has Type \<open>T\<close>, and options
  that leave the Type and the Status of an entry as they are (as
  \<open>WithTaskConditionMessage\<close> does): after \<open>SetCondition(T, S, opts...)\<close> exactly one entry
  has Type \<open>T\<close>; its Status is \<open>S\<close>, and it is the entry the call found (or the new entry
  of type \<open>T\<close>) with Status \<open>S\<close> and the options applied in order. In particular
  \<open>SetCondition(T, S1)\<close> then \<open>SetCondition(T, S2)\<close> leaves exactly one entry of type
  \<open>T\<close>, with status \<open>S2\<close>.
\<close>

theorem SetCondition_exactly_one:
  assumes "count_list (map Type (conds t)) T \<le> 1"
    and "\<forall>opt \<in> set opts. keeps_type opt \<and> keeps_status opt"
  shows "(\<exists>t'. SetCondition t T S opts = Inr t'
            \<and> count_list (map Type (conds t')) T = 1
            \<and> (\<forall>c \<in> set (conds t'). Type c = T \<longrightarrow>
                  c = updated_entry S opts (pointed_entry (conds t) T)
                  \<and> TaskCondition.Status c = S))
       \<and> (\<exists>t1 t2. SetCondition t T S1 [] = Inr t1 \<and> SetCondition t1 T S2 [] = Inr t2
            \<and> count_list (map Type (conds t2)) T = 1
            \<and> (\<forall>c \<in> set (conds t2). Type c = T \<longrightarrow> TaskCondition.Status c = S2))"
proof
  show "\<exists>t'. SetCondition t T S opts = Inr t'
            \<and> count_list (map Type (conds t')) T = 1
            \<and> (\<forall>c \<in> set (conds t'). Type c = T \<longrightarrow>
                  c = updated_entry S opts (pointed_entry (conds t) T)
                  \<and> TaskCondition.Status c = S)"
    using assms by (rule SetCondition_unique_entry)
next
  have none: "\<forall>opt \<in> set ([] :: TaskSetConditionOption list). keeps_type opt \<and> keeps_status opt"
    by simp
  from SetCondition_unique_entry [OF assms(1) none, of S1]
  obtain t1 where t1: "SetCondition t T S1 [] = Inr t1"
    and one: "count_list (map Type (conds t1)) T = 1"
    by blast
  from one have "count_list (map Type (conds t1)) T \<le> 1" by simp
  from SetCondition_unique_entry [OF this none, of S2]
  obtain t2 where "SetCondition t1 T S2 [] = Inr t2"
    and "count_list (map Type (conds t2)) T = 1"
    and "\<forall>c \<in> set (conds t2). Type c = T \<longrightarrow> TaskCondition.Status c = S2"
    by blast
  with t1 show "\<exists>t1 t2. SetCondition t T S1 [] = Inr t1 \<and> SetCondition t1 T S2 [] = Inr t2
            \<and> count_list (map Type (conds t2)) T = 1
            \<and> (\<forall>c \<in> set (conds t2). Type c = T \<longrightarrow> TaskCondition.Status c = S2)"
    by blast
qed

theorem SetCondition_exactly_one_witness:
  "count_list (map Type (conds (example_task
      [\<lparr>Type = TaskFailed, Status = ConditionFalse, Message = []\<rparr>,
       \<lparr>Type = TaskCompleted, Status = ConditionFalse, Message = ''old''\<rparr>]))) TaskCompleted \<le> 1
   \<and> keeps_type (WithTaskConditionMessage ''done'')
   \<and> keeps_status (WithTaskConditionMessage ''done'')
   \<and> (\<exists>t'. SetCondition (example_task
          [\<lparr>Type = TaskFailed, Status = ConditionFalse, Message = []\<rparr>,
           \<lparr>Type = TaskCompleted, Status = ConditionFalse, Message = ''old''\<rparr>])
          TaskCompleted ConditionTrue [WithTaskConditionMessage ''done''] = Inr t'
        \<and> count_list (map Type (conds t')) TaskCompleted = 1)"
proof -
  let ?t = "example_task
      [\<lparr>Type = TaskFailed, Status = ConditionFalse, Message = []\<rparr>,
       \<lparr>Type = TaskCompleted, Status = ConditionFalse, Message = ''old''\<rparr>]"
  have once: "count_list (map Type (conds ?t)) TaskCompleted \<le> 1"
    by (simp add: example_task_def TaskFailed_def TaskCompleted_def)
  have kt: "keeps_type (WithTaskConditionMessage ''done'')" by (rule keeps_type_message)
  have ks: "keeps_status (WithTaskConditionMessage ''done'')" by (rule keeps_status_message)
  from kt ks have keeps: "\<forall>opt \<in> set [WithTaskConditionMessage ''done'']. keeps_type opt \<and> keeps_status opt"
    by simp
  from SetCondition_exactly_one [OF once keeps, of ConditionTrue ConditionFalse ConditionTrue]
  have "\<exists>t'. SetCondition ?t TaskCompleted ConditionTrue [WithTaskConditionMessage ''done''] = Inr t'
        \<and> count_list (map Type (conds t')) TaskCompleted = 1"
    by blast
  with once kt ks show ?thesis by blast
qed

text \<open>
  The claim as stated, for every Task and every option list, fails in three ways. On a
  Task that already has two entries of type \<open>Completed\<close>, \<open>SetCondition(Completed, True)\<close>
  rewrites the first and leaves two. An option that rewrites the Type leaves no entry of
  the type asked for, and an option that rewrites the Status leaves the entry with
  another status than the one asked for.
\<close>

theorem SetCondition_exactly_one_counterexample:
  "SetCondition (example_task
       [\<lparr>Type = TaskCompleted, Status = ConditionFalse, Message = []\<rparr>,
        \<lparr>Type = TaskCompleted, Status = ConditionFalse, Message = []\<rparr>])
     TaskCompleted ConditionTrue [] =
   Inr (example_task
       [\<lparr>Type = TaskCompleted, Status = ConditionTrue, Message = []\<rparr>,
        \<lparr>Type = TaskCompleted, Status = ConditionFalse, Message = []\<rparr>])
   \<and> count_list (map Type (conds (example_task
       [\<lparr>Type = TaskCompleted, Status = ConditionTrue, Message = []\<rparr>,
        \<lparr>Type = TaskCompleted, Status = ConditionFalse, Message = []\<rparr>]))) TaskCompleted = 2
   \<and> SetCondition (example_task []) TaskCompleted ConditionTrue [retype_option TaskFailed] =
     Inr (example_task [\<lparr>Type = TaskFailed, Status = ConditionTrue, Message = []\<rparr>])
   \<and> count_list (map Type (conds (example_task
       [\<lparr>Type = TaskFailed, Status = ConditionTrue, Message = []\<rparr>]))) TaskCompleted = 0
   \<and> SetCondition (example_task []) TaskCompleted ConditionTrue [restatus_option ConditionFalse] =
     Inr (example_task [\<lparr>Type = TaskCompleted, Status = ConditionFalse, Message = []\<rparr>])
   \<and> ConditionFalse \<noteq> ConditionTrue"
  by (simp add: SetCondition_def store_through_def example_task_def new_entry_def
      retype_option_def restatus_option_def TaskCompleted_def TaskFailed_def
      ConditionTrue_def ConditionFalse_def)

text \<open>
  Claim C4, as amended. \<open>SetCondition\<close> with options that leave the Type of an entry as it
  is preserves the invariant: if every Type occurs at most once before the call, every
  Type occurs at most once after it.
\<close>

theorem SetCondition_preserves_uniqueness:
  assumes "distinct (map Type (conds t))" and "\<forall>opt \<in> set opts. keeps_type opt"
  shows "\<exists>t'. SetCondition t T S opts = Inr t' \<and> distinct (map Type (conds t'))"
proof -
  from SetCondition_types [OF assms(2), of t T S]
  obtain t' where "SetCondition t T S opts = Inr t'"
    and "map Type (conds t') =
      (if T \<in> Type ` set (conds t) then map Type (conds t) else map Type (conds t) @ [T])"
    by blast
  with assms(1) show ?thesis by (auto split: if_splits)
qed

theorem SetCondition_preserves_uniqueness_witness:
  "distinct (map Type (conds (example_task
      [\<lparr>Type = TaskFailed, Status = ConditionFalse, Message = []\<rparr>,
       \<lparr>Type = TaskCompleted, Status = ConditionFalse, Message = ''old''\<rparr>])))
   \<and> keeps_type (WithTaskConditionMessage ''done'')
   \<and> (\<exists>t'. SetCondition (example_task
          [\<lparr>Type = TaskFailed, Status = ConditionFalse, Message = []\<rparr>,
           \<lparr>Type = TaskCompleted, Status = ConditionFalse, Message = ''old''\<rparr>])
          TaskCompleted ConditionTrue [WithTaskConditionMessage ''done''] = Inr t'
        \<and> distinct (map Type (conds t')))"
proof -
  let ?t = "example_task
      [\<lparr>Type = TaskFailed, Status = ConditionFalse, Message = []\<rparr>,
       \<lparr>Type = TaskCompleted, Status = ConditionFalse, Message = ''old''\<rparr>]"
  have uniq: "distinct (map Type (conds ?t))"
    by (simp add: example_task_def TaskFailed_def TaskCompleted_def)
  have kt: "keeps_type (WithTaskConditionMessage ''done'')" by (rule keeps_type_message)
  then have keeps: "\<forall>opt \<in> set [WithTaskConditionMessage ''done'']. keeps_type opt" by simp
  from SetCondition_preserves_uniqueness [OF uniq keeps, of TaskCompleted ConditionTrue]
  have "\<exists>t'. SetCondition ?t TaskCompleted ConditionTrue [WithTaskConditionMessage ''done''] = Inr t'
        \<and> distinct (map Type (conds t'))" .
  with uniq kt show ?thesis by blast
qed

text \<open>
  The claim as stated, for any option list, fails: on \<open>[{Completed, False}, {Failed, False}]\<close>
  a call \<open>SetCondition(Completed, True, opt)\<close> whose option sets the Type to \<open>Failed\<close>
  leaves two entries of type \<open>Failed\<close>.
\<close>

theorem SetCondition_preserves_uniqueness_counterexample:
  "distinct (map Type (conds (example_task
       [\<lparr>Type = TaskCompleted, Status = ConditionFalse, Message = []\<rparr>,
        \<lparr>Type = TaskFailed, Status = ConditionFalse, Message = []\<rparr>])))
   \<and> SetCondition (example_task
       [\<lparr>Type = TaskCompleted, Status = ConditionFalse, Message = []\<rparr>,
        \<lparr>Type = TaskFailed, Status = ConditionFalse, Message = []\<rparr>])
     TaskCompleted ConditionTrue [retype_option TaskFailed] =
   Inr (example_task
       [\<lparr>Type = TaskFailed, Status = ConditionTrue, Message = []\<rparr>,
        \<lparr>Type = TaskFailed, Status = ConditionFalse, Message = []\<rparr>])
   \<and> \<not> distinct (map Type (conds (example_task
       [\<lparr>Type = TaskFailed, Status = ConditionTrue, Message = []\<rparr>,
        \<lparr>Type = TaskFailed, Status = ConditionFalse, Message = []\<rparr>])))"
  by (simp add: SetCondition_def store_through_def example_task_def new_entry_def
      retype_option_def TaskCompleted_def TaskFailed_def)

section \<open>SetCondition: the frame\<close>

text \<open>
  Claim C2. \<open>SetCondition(T1, ...)\<close> returns a Task in which every entry that was there
  with a Type other than \<open>T1\<close> is at the index it had, unchanged (so these entries keep
  their order), and in which the spec, both time stamps and the metadata are those of
  the Task before the call.
\<close>

theorem SetCondition_frame:
  "\<exists>t'. SetCondition t T1 S opts = Inr t'
      \<and> length (conds t) \<le> length (conds t')
      \<and> (\<forall>i < length (conds t). Type (conds t ! i) \<noteq> T1 \<longrightarrow> conds t' ! i = conds t ! i)
      \<and> Spec t' = Spec t
      \<and> StartTime (Status t') = StartTime (Status t)
      \<and> CompletionTime (Status t') = CompletionTime (Status t)
      \<and> TypeMeta t' = TypeMeta t \<and> ObjectMeta t' = ObjectMeta t"
proof (rule SetCondition_cases [where t = t and T = T1 and S = S and opts = opts])
  fix i
  assume i: "Type (conds t ! i) = T1"
    and res: "SetCondition t T1 S opts =
      Inr (with_conds t ((conds t)[i := updated_entry S opts (conds t ! i)]))"
  have "\<forall>k < length (conds t). Type (conds t ! k) \<noteq> T1 \<longrightarrow>
      (conds t)[i := updated_entry S opts (conds t ! i)] ! k = conds t ! k"
    using i by (metis nth_list_update_neq)
  with res show ?thesis by simp
next
  assume res: "SetCondition t T1 S opts =
      Inr (with_conds t (conds t @ [updated_entry S opts (new_entry T1)]))"
  then show ?thesis by (simp add: nth_append)
qed

theorem SetCondition_frame_witness:
  "Type \<lparr>Type = TaskFailed, Status = ConditionFalse, Message = ''x''\<rparr> \<noteq> TaskCompleted
   \<and> (\<exists>t'. SetCondition (example_task
          [\<lparr>Type = TaskCompleted, Status = ConditionFalse, Message = []\<rparr>,
           \<lparr>Type = TaskFailed, Status = ConditionFalse, Message = ''x''\<rparr>])
          TaskCompleted ConditionTrue [WithTaskConditionMessage ''done''] = Inr t'
        \<and> conds t' ! 1 = \<lparr>Type = TaskFailed, Status = ConditionFalse, Message = ''x''\<rparr>
        \<and> Spec t' = Spec (example_task []) \<and> StartTime (Status t') = None
        \<and> CompletionTime (Status t') = None)"
proof -
  let ?t = "example_task
          [\<lparr>Type = TaskCompleted, Status = ConditionFalse, Message = []\<rparr>,
           \<lparr>Type = TaskFailed, Status = ConditionFalse, Message = ''x''\<rparr>]"
  from SetCondition_frame [of ?t TaskCompleted ConditionTrue "[WithTaskConditionMessage ''done'']"]
  obtain t' where res: "SetCondition ?t TaskCompleted ConditionTrue [WithTaskConditionMessage ''done''] = Inr t'"
    and others: "\<forall>i < length (conds ?t). Type (conds ?t ! i) \<noteq> TaskCompleted \<longrightarrow> conds t' ! i = conds ?t ! i"
    and rest: "Spec t' = Spec ?t" "StartTime (Status t') = StartTime (Status ?t)"
      "CompletionTime (Status t') = CompletionTime (Status ?t)"
    by blast
  have differ: "Type \<lparr>Type = TaskFailed, Status = ConditionFalse, Message = ''x''\<rparr> \<noteq> TaskCompleted"
    by (simp add: TaskFailed_def TaskCompleted_def)
  have "1 < length (conds ?t)" by (simp add: example_task_def)
  with others differ have "conds t' ! 1 = \<lparr>Type = TaskFailed, Status = ConditionFalse, Message = ''x''\<rparr>"
    by (simp add: example_task_def)
  with res rest differ show ?thesis by (simp add: example_task_def)
qed

section \<open>First match wins\<close>

text \<open>
  Claim C9. Whatever else the sequence holds, later entries of the same type included:
  when \<open>i\<close> is the index of the first entry of type \<open>T\<close>, \<open>SetCondition\<close> rewrites the
  entry at \<open>i\<close> only, the sequence keeps its length and every other entry, and
  \<open>HasCondition\<close> answers from the status of the entry at \<open>i\<close> and leaves the Task as
  it is. Nothing is merged and nothing is removed.
\<close>

theorem first_match_wins:
  assumes "i < length (conds t)" and "Type (conds t ! i) = T"
    and "\<forall>j < i. Type (conds t ! j) \<noteq> T"
  shows "(\<exists>t'. SetCondition t T S opts = Inr t'
            \<and> length (conds t') = length (conds t)
            \<and> conds t' ! i = updated_entry S opts (conds t ! i)
            \<and> (\<forall>k < length (conds t). k \<noteq> i \<longrightarrow> conds t' ! k = conds t ! k))
       \<and> HasCondition t T S' = (TaskCondition.Status (conds t ! i) = S', t)"
proof
  from assms have "find_condition 0 (conds t) T = Some i" by (rule first_index_found)
  from SetCondition_found [OF this, of S opts] assms(1)
  show "\<exists>t'. SetCondition t T S opts = Inr t'
            \<and> length (conds t') = length (conds t)
            \<and> conds t' ! i = updated_entry S opts (conds t ! i)
            \<and> (\<forall>k < length (conds t). k \<noteq> i \<longrightarrow> conds t' ! k = conds t ! k)"
    by simp
next
  from assms have "find (\<lambda>c. Type c = T) (conds t) = Some (conds t ! i)"
    by (intro find_first_index) simp_all
  then show "HasCondition t T S' = (TaskCondition.Status (conds t ! i) = S', t)"
    by (simp add: HasCondition_def has_condition_find)
qed

theorem first_match_wins_witness:
  "(\<exists>t'. SetCondition (example_task
          [\<lparr>Type = TaskCompleted, Status = ConditionFalse, Message = ''first''\<rparr>,
           \<lparr>Type = TaskCompleted, Status = ConditionFalse, Message = ''second''\<rparr>])
          TaskCompleted ConditionTrue [] = Inr t'
        \<and> length (conds t') = 2
        \<and> conds t' ! 0 = \<lparr>Type = TaskCompleted, Status = ConditionTrue, Message = ''first''\<rparr>
        \<and> conds t' ! 1 = \<lparr>Type = TaskCompleted, Status = ConditionFalse, Message = ''second''\<rparr>)
   \<and> fst (HasCondition (example_task
          [\<lparr>Type = TaskCompleted, Status = ConditionTrue, Message = ''first''\<rparr>,
           \<lparr>Type = TaskCompleted, Status = ConditionFalse, Message = ''second''\<rparr>])
          TaskCompleted ConditionTrue)"
proof -
  let ?t = "example_task
          [\<lparr>Type = TaskCompleted, Status = ConditionFalse, Message = ''first''\<rparr>,
           \<lparr>Type = TaskCompleted, Status = ConditionFalse, Message = ''second''\<rparr>]"
  let ?u = "example_task
          [\<lparr>Type = TaskCompleted, Status = ConditionTrue, Message = ''first''\<rparr>,
           \<lparr>Type = TaskCompleted, Status = ConditionFalse, Message = ''second''\<rparr>]"
  have t: "0 < length (conds ?t)" "Type (conds ?t ! 0) = TaskCompleted"
    "\<forall>j < 0. Type (conds ?t ! j) \<noteq> TaskCompleted"
    by (simp_all add: example_task_def)
  have u: "0 < length (conds ?u)" "Type (conds ?u ! 0) = TaskCompleted"
    "\<forall>j < 0. Type (conds ?u ! j) \<noteq> TaskCompleted"
    by (simp_all add: example_task_def)
  from first_match_wins [OF t, of ConditionTrue "[]" ConditionFalse]
  obtain t' where res: "SetCondition ?t TaskCompleted ConditionTrue [] = Inr t'"
    and len: "length (conds t') = length (conds ?t)"
    and first: "conds t' ! 0 = updated_entry ConditionTrue [] (conds ?t ! 0)"
    and others: "\<forall>k < length (conds ?t). k \<noteq> 0 \<longrightarrow> conds t' ! k = conds ?t ! k"
    by blast
  from others have "conds t' ! 1 = conds ?t ! 1"
    by (simp add: example_task_def)
  with res len first
  have "\<exists>t'. SetCondition ?t TaskCompleted ConditionTrue [] = Inr t'
        \<and> length (conds t') = 2
        \<and> conds t' ! 0 = \<lparr>Type = TaskCompleted, Status = ConditionTrue, Message = ''first''\<rparr>
        \<and> conds t' ! 1 = \<lparr>Type = TaskCompleted, Status = ConditionFalse, Message = ''second''\<rparr>"
    by (simp add: example_task_def updated_entry_no_opts)
  moreover from first_match_wins [OF u, of _ _ ConditionTrue]
  have "fst (HasCondition ?u TaskCompleted ConditionTrue)"
    by (simp add: example_task_def)
  ultimately show ?thesis by simp
qed

end
